theory Spec2Isabelle
  imports Complex_Main "HOL-Library.Sublist"
begin

section \<open>The intermediate representation (src/compiler/ir.ts)\<close>

datatype ServiceType = Api | Db | Queue | Cache

datatype Protocol = Http | Https | Tcp

text \<open>A JavaScript number; the values a configuration can carry are finite, so they are
  modelled as rationals.\<close>

type_synonym number = rat

record NetworkBinding =
  host :: string
  port :: number
  protocol :: Protocol

record ResourceLimits =
  cpu :: "number option"
  memoryMb :: "number option"

record Service =
  name :: string
  type :: ServiceType
  public :: bool
  handlesPII :: bool
  network :: "NetworkBinding list"
  dependsOn :: "string list"
  resourceLimits :: "ResourceLimits option"

datatype ParseFormat = Yaml | Json

record Metadata =
  sourceFormat :: ParseFormat
  rawHash :: "string option"

record ConfigIR =
  services :: "Service list"
  metadata :: "Metadata option"


section \<open>The invariant engine (src/compiler/invariants.ts)\<close>

datatype Severity = Low | Medium | High

text \<open>The field \<open>id\<close> of the source is \<open>id_viol\<close> here, since \<open>id\<close> is the identity
  function of HOL.\<close>

record InvariantViolation =
  id_viol :: string
  description :: string
  serviceName :: string
  severity :: Severity

text \<open>R1. \<open>Array.prototype.some\<close> is \<open>list_ex\<close>: it is false on the empty array, whatever
  the callback would return.\<close>

definition ruleNoPublicDatabases :: "Service \<Rightarrow> InvariantViolation option" where
  "ruleNoPublicDatabases service =
     (if type service \<noteq> Db then None
      else
        let hasPublicBinding =
              list_ex (\<lambda>n. host n = ''0.0.0.0'' \<or> public service) (network service)
        in
          if \<not> hasPublicBinding then None
          else Some \<lparr> id_viol = ''R1_NO_PUBLIC_DB'',
                      description = ''Database service is exposed publicly (host=0.0.0.0 or marked public). Databases should not be directly reachable from the internet.'',
                      serviceName = name service,
                      severity = High \<rparr>)"

text \<open>R2.\<close>

definition rulePublicServicesRequireTLS :: "Service \<Rightarrow> InvariantViolation option" where
  "rulePublicServicesRequireTLS service =
     (if \<not> public service then None
      else
        let hasHttps = list_ex (\<lambda>n. protocol n = Https) (network service) in
          if hasHttps then None
          else
            let hasHttp = list_ex (\<lambda>n. protocol n = Http) (network service) in
              if \<not> hasHttp then None
              else Some \<lparr> id_viol = ''R2_PUBLIC_REQUIRES_TLS'',
                          description = ''Publicly exposed service listens on HTTP without any HTTPS endpoint. Public services must have TLS enabled.'',
                          serviceName = name service,
                          severity = High \<rparr>)"

text \<open>R3.\<close>

definition ruleNoPIIPublicExposure :: "Service \<Rightarrow> InvariantViolation option" where
  "ruleNoPIIPublicExposure service =
     (if \<not> handlesPII service then None
      else if \<not> public service then None
      else Some \<lparr> id_viol = ''R3_NO_PII_PUBLIC'',
                  description = ''Service that handles PII is marked as public. PII-handling services should not be directly exposed to the internet.'',
                  serviceName = name service,
                  severity = High \<rparr>)"

text \<open>R4. An object is truthy, so \<open>limits &&\<close> only tests that the limits are present.\<close>

definition ruleResourceLimitsDefined :: "Service \<Rightarrow> InvariantViolation option" where
  "ruleResourceLimitsDefined service =
     (case resourceLimits service of
        Some limits \<Rightarrow>
          if cpu limits \<noteq> None \<and> memoryMb limits \<noteq> None then None
          else Some \<lparr> id_viol = ''R4_RESOURCE_LIMITS'',
                      description = ''Service is missing CPU or memory limits. Resource limits are required for predictable capacity and to prevent noisy-neighbour issues.'',
                      serviceName = name service,
                      severity = Medium \<rparr>
      | None \<Rightarrow>
          Some \<lparr> id_viol = ''R4_RESOURCE_LIMITS'',
                 description = ''Service is missing CPU or memory limits. Resource limits are required for predictable capacity and to prevent noisy-neighbour issues.'',
                 serviceName = name service,
                 severity = Medium \<rparr>)"

definition RULES :: "(Service \<Rightarrow> InvariantViolation option) list" where
  "RULES = [ruleNoPublicDatabases, rulePublicServicesRequireTLS,
            ruleNoPIIPublicExposure, ruleResourceLimitsDefined]"

text \<open>The inner loop of \<open>checkInvariants\<close>: every rule of the list is applied to the
  service, and a violation is pushed at the end of the array.\<close>

fun for_rules ::
  "(Service \<Rightarrow> InvariantViolation option) list \<Rightarrow> Service \<Rightarrow>
   InvariantViolation list \<Rightarrow> InvariantViolation list" where
  "for_rules [] svc violations = violations"
| "for_rules (rule # rules) svc violations =
     (case rule svc of
        None \<Rightarrow> for_rules rules svc violations
      | Some v \<Rightarrow> for_rules rules svc (violations @ [v]))"

text \<open>The outer loop, over the services in their order.\<close>

fun for_services :: "Service list \<Rightarrow> InvariantViolation list \<Rightarrow> InvariantViolation list" where
  "for_services [] violations = violations"
| "for_services (svc # svcs) violations = for_services svcs (for_rules RULES svc violations)"

definition checkInvariants :: "ConfigIR \<Rightarrow> InvariantViolation list" where
  "checkInvariants ir = for_services (services ir) []"

text \<open>The violations of one service as the specification words them: the results of the
  four rules, in the order R1, R2, R3, R4, with the absent ones left out.\<close>

definition violations_of :: "Service \<Rightarrow> InvariantViolation list" where
  "violations_of svc =
     List.map_filter (\<lambda>rule. rule svc)
       [ruleNoPublicDatabases, rulePublicServicesRequireTLS,
        ruleNoPIIPublicExposure, ruleResourceLimitsDefined]"

text \<open>The configurations of Scenarios 1 and 2 of the specification.\<close>

definition scenario1_service :: Service where
  "scenario1_service =
     \<lparr> name = ''user-db'', type = Db, public = True, handlesPII = False, network = [],
       dependsOn = [], resourceLimits = Some \<lparr> cpu = Some 1, memoryMb = Some 512 \<rparr> \<rparr>"

definition scenario1_ir :: ConfigIR where
  "scenario1_ir = \<lparr> services = [scenario1_service], metadata = None \<rparr>"

definition scenario2_service :: Service where
  "scenario2_service =
     \<lparr> name = ''api-gw'', type = Api, public = True, handlesPII = False,
       network = [\<lparr> host = ''0.0.0.0'', port = 80, protocol = Http \<rparr>],
       dependsOn = [], resourceLimits = None \<rparr>"

definition scenario2_ir :: ConfigIR where
  "scenario2_ir = \<lparr> services = [scenario2_service], metadata = None \<rparr>"


section \<open>The drift differencer (src/compiler/diff.ts)\<close>

datatype RiskImpact = risk_increase | risk_decrease | neutral

text \<open>The field \<open>serviceName\<close> of a \<open>ServiceChange\<close> is \<open>serviceName_change\<close> here: the
  violation record above already has a field \<open>serviceName\<close>.\<close>

record ServiceChange =
  serviceName_change :: string
  messages :: "string list"
  riskImpact :: RiskImpact

record DiffSummary =
  totalNewViolations :: nat
  totalResolvedViolations :: nat

record DiffResult =
  summary :: DiffSummary
  changes :: "ServiceChange list"

subsection \<open>JavaScript's Map and Set, in insertion order\<close>

text \<open>A \<open>Map\<close> is the list of its entries in insertion order, with one entry for a key.
  \<open>Map_set\<close> overwrites the value of a key that is present, in its place, and appends a
  new key at the end.\<close>

type_synonym ('k, 'v) js_map = "('k \<times> 'v) list"

fun Map_get :: "('k, 'v) js_map \<Rightarrow> 'k \<Rightarrow> 'v option" where
  "Map_get [] k = None"
| "Map_get ((k', v) # m) k = (if k' = k then Some v else Map_get m k)"

fun Map_set :: "('k, 'v) js_map \<Rightarrow> 'k \<Rightarrow> 'v \<Rightarrow> ('k, 'v) js_map" where
  "Map_set [] k v = [(k, v)]"
| "Map_set ((k', v') # m) k v = (if k' = k then (k, v) # m else (k', v') # Map_set m k v)"

text \<open>A \<open>Set\<close> is the list of its elements in insertion order; adding an element that is
  present changes nothing.\<close>

definition Set_add :: "'a list \<Rightarrow> 'a \<Rightarrow> 'a list" where
  "Set_add s x = (if x \<in> set s then s else s @ [x])"

fun new_Set :: "'a list \<Rightarrow> 'a list \<Rightarrow> 'a list" where
  "new_Set [] s = s"
| "new_Set (x # xs) s = new_Set xs (Set_add s x)"

subsection \<open>Strings\<close>

text \<open>A count in a template literal is printed in decimal (the length of an array is
  below \<open>2^32\<close>, where JavaScript prints a number with all its digits).\<close>

definition digit :: "nat \<Rightarrow> char" where
  "digit d = ''0123456789'' ! d"

fun string_of_nat :: "nat \<Rightarrow> string" where
  "string_of_nat n =
     (if n < 10 then [digit n] else string_of_nat (n div 10) @ [digit (n mod 10)])"

declare string_of_nat.simps [simp del]

text \<open>\<open>Array.prototype.join\<close>.\<close>

fun join :: "string \<Rightarrow> string list \<Rightarrow> string" where
  "join sep [] = []"
| "join sep [x] = x"
| "join sep (x # y # ys) = x @ sep @ join sep (y # ys)"

fun string_of_Severity :: "Severity \<Rightarrow> string" where
  "string_of_Severity Low = ''low''"
| "string_of_Severity Medium = ''medium''"
| "string_of_Severity High = ''high''"

subsection \<open>indexByService\<close>

text \<open>\<open>map.get(key) ?? []\<close>: the array of a key that is absent is the empty array.\<close>

definition orEmpty :: "'a list option \<Rightarrow> 'a list" where
  "orEmpty r = (case r of Some a \<Rightarrow> a | None \<Rightarrow> [])"

fun indexByService_loop ::
  "InvariantViolation list \<Rightarrow> (string, InvariantViolation list) js_map \<Rightarrow>
   (string, InvariantViolation list) js_map" where
  "indexByService_loop [] m = m"
| "indexByService_loop (v # vs) m =
     (let arr = orEmpty (Map_get m (serviceName v));
          arr = arr @ [v]
      in indexByService_loop vs (Map_set m (serviceName v) arr))"

definition indexByService ::
  "InvariantViolation list \<Rightarrow> (string, InvariantViolation list) js_map" where
  "indexByService violations = indexByService_loop violations []"

subsection \<open>diffConfigs\<close>

text \<open>The variables the loop of \<open>diffConfigs\<close> updates.\<close>

record DiffState =
  st_totalNewViolations :: nat
  st_totalResolvedViolations :: nat
  st_changes :: "ServiceChange list"

text \<open>One iteration of the loop over the names; \<open>continue\<close> leaves the state as it is.\<close>

definition diff_body ::
  "(string, InvariantViolation list) js_map \<Rightarrow> (string, InvariantViolation list) js_map \<Rightarrow>
   string \<Rightarrow> DiffState \<Rightarrow> DiffState" where
  "diff_body oldIndex newIndex name' st =
     (let oldVs = orEmpty (Map_get oldIndex name');
          newVs = orEmpty (Map_get newIndex name');
          oldCount = length oldVs;
          newCount = length newVs
      in
        if oldCount = 0 \<and> newCount = 0 then st
        else
          let (totalNew, totalResolved, msgs) =
                (if oldCount = 0 \<and> newCount > 0 then
                   (st_totalNewViolations st + newCount, st_totalResolvedViolations st,
                    [string_of_nat newCount @ '' new violation(s) introduced.''])
                 else if oldCount > 0 \<and> newCount = 0 then
                   (st_totalNewViolations st, st_totalResolvedViolations st + oldCount,
                    [string_of_nat oldCount @ '' violation(s) resolved.''])
                 else if newCount \<noteq> oldCount then
                   (if newCount > oldCount then
                      (st_totalNewViolations st + (newCount - oldCount),
                       st_totalResolvedViolations st,
                       [''Violations increased from '' @ string_of_nat oldCount @ '' to '' @
                        string_of_nat newCount @ ''.''])
                    else
                      (st_totalNewViolations st,
                       st_totalResolvedViolations st + (oldCount - newCount),
                       [''Violations decreased from '' @ string_of_nat oldCount @ '' to '' @
                        string_of_nat newCount @ ''.'']))
                 else
                   (st_totalNewViolations st, st_totalResolvedViolations st,
                    [''Violations count unchanged ('' @ string_of_nat newCount @ '').'']));
              msgs =
                (if length newVs > 0 then
                   msgs @
                   [''Current violations: '' @
                    join '', ''
                      (map (\<lambda>v. id_viol v @ '' ('' @ string_of_Severity (severity v) @ '')'')
                         newVs)]
                 else msgs);
              impact =
                (if newCount > oldCount then risk_increase
                 else if newCount < oldCount then risk_decrease
                 else neutral)
          in \<lparr> st_totalNewViolations = totalNew,
               st_totalResolvedViolations = totalResolved,
               st_changes =
                 st_changes st @
                 [\<lparr> serviceName_change = name', messages = msgs, riskImpact = impact \<rparr>] \<rparr>)"

fun diff_loop ::
  "(string, InvariantViolation list) js_map \<Rightarrow> (string, InvariantViolation list) js_map \<Rightarrow>
   string list \<Rightarrow> DiffState \<Rightarrow> DiffState" where
  "diff_loop oldIndex newIndex [] st = st"
| "diff_loop oldIndex newIndex (n # ns) st =
     diff_loop oldIndex newIndex ns (diff_body oldIndex newIndex n st)"

definition allServiceNames :: "ConfigIR \<Rightarrow> ConfigIR \<Rightarrow> string list" where
  "allServiceNames oldIR newIR =
     new_Set (map name (services oldIR) @ map name (services newIR)) []"

definition diffConfigs ::
  "ConfigIR \<Rightarrow> ConfigIR \<Rightarrow> InvariantViolation list \<Rightarrow> InvariantViolation list \<Rightarrow>
   DiffResult" where
  "diffConfigs oldIR newIR oldViolations newViolations =
     (let oldIndex = indexByService oldViolations;
          newIndex = indexByService newViolations;
          st = diff_loop oldIndex newIndex (allServiceNames oldIR newIR)
                 \<lparr> st_totalNewViolations = 0, st_totalResolvedViolations = 0,
                   st_changes = [] \<rparr>
      in \<lparr> summary = \<lparr> totalNewViolations = st_totalNewViolations st,
                        totalResolvedViolations = st_totalResolvedViolations st \<rparr>,
           changes = st_changes st \<rparr>)"

text \<open>The number of violations the differencer attributes to a name: the length of the
  array the index holds for it, or of the empty array.\<close>

definition countFor :: "InvariantViolation list \<Rightarrow> string \<Rightarrow> nat" where
  "countFor violations name' =
     length (orEmpty (Map_get (indexByService violations) name'))"


subsection \<open>What one iteration reports\<close>

text \<open>The message about the counts, the message listing the current violations and the
  risk impact of lines 65 to 104, as functions of the old count and the new violations.
  The loop above does not use them; the theorems below relate it to them.\<close>

definition countMessage :: "nat \<Rightarrow> nat \<Rightarrow> string" where
  "countMessage oldCount newCount =
     (if oldCount = 0 \<and> newCount > 0 then
        string_of_nat newCount @ '' new violation(s) introduced.''
      else if oldCount > 0 \<and> newCount = 0 then
        string_of_nat oldCount @ '' violation(s) resolved.''
      else if newCount > oldCount then
        ''Violations increased from '' @ string_of_nat oldCount @ '' to '' @
        string_of_nat newCount @ ''.''
      else if newCount < oldCount then
        ''Violations decreased from '' @ string_of_nat oldCount @ '' to '' @
        string_of_nat newCount @ ''.''
      else ''Violations count unchanged ('' @ string_of_nat newCount @ '').'')"

definition currentViolations :: "InvariantViolation list \<Rightarrow> string" where
  "currentViolations newVs =
     ''Current violations: '' @
     join '', '' (map (\<lambda>v. id_viol v @ '' ('' @ string_of_Severity (severity v) @ '')'') newVs)"

definition impactOf :: "nat \<Rightarrow> nat \<Rightarrow> RiskImpact" where
  "impactOf oldCount newCount =
     (if newCount > oldCount then risk_increase
      else if newCount < oldCount then risk_decrease
      else neutral)"

definition changeFor :: "string \<Rightarrow> nat \<Rightarrow> InvariantViolation list \<Rightarrow> ServiceChange" where
  "changeFor name' oldCount newVs =
     \<lparr> serviceName_change = name',
       messages = countMessage oldCount (length newVs) #
                  (if newVs = [] then [] else [currentViolations newVs]),
       riskImpact = impactOf oldCount (length newVs) \<rparr>"

text \<open>The violations of a list that are attributed to a name, in their order.\<close>

definition attributed :: "InvariantViolation list \<Rightarrow> string \<Rightarrow> InvariantViolation list" where
  "attributed violations name' = filter (\<lambda>v. serviceName v = name') violations"

text \<open>The inputs of Scenario 3 of the specification: the service \<open>cache1\<close> has two
  violations in the old configuration and none in the new one.\<close>

definition scenario3_ir :: ConfigIR where
  "scenario3_ir =
     \<lparr> services =
         [\<lparr> name = ''cache1'', type = Cache, public = True, handlesPII = True,
            network = [], dependsOn = [], resourceLimits = None \<rparr>],
       metadata = None \<rparr>"

definition scenario3_ir_new :: ConfigIR where
  "scenario3_ir_new =
     \<lparr> services =
         [\<lparr> name = ''cache1'', type = Cache, public = False, handlesPII = True,
            network = [], dependsOn = [],
            resourceLimits = Some \<lparr> cpu = Some 1, memoryMb = Some 256 \<rparr> \<rparr>],
       metadata = None \<rparr>"


text \<open>A new configuration in which \<open>cache1\<close> differs from \<open>scenario3_ir_new\<close> in its
  other fields and still has no violation.\<close>

definition scenario3_ir_resized :: ConfigIR where
  "scenario3_ir_resized =
     \<lparr> services =
         [\<lparr> name = ''cache1'', type = Cache, public = False, handlesPII = False,
            network = [\<lparr> host = ''internal'', port = 6379, protocol = Tcp \<rparr>],
            dependsOn = [''user-db''],
            resourceLimits = Some \<lparr> cpu = Some 2, memoryMb = Some 1024 \<rparr> \<rparr>],
       metadata = None \<rparr>"

text \<open>Two configurations for a name that occurs twice: in the old one the two entries
  named \<open>dup\<close> have three violations together, in the new one the single entry has one.\<close>

definition duplicate_ir :: ConfigIR where
  "duplicate_ir =
     \<lparr> services =
         [\<lparr> name = ''dup'', type = Api, public = False, handlesPII = False,
            network = [], dependsOn = [], resourceLimits = None \<rparr>,
          \<lparr> name = ''dup'', type = Cache, public = True, handlesPII = True,
            network = [], dependsOn = [], resourceLimits = None \<rparr>],
       metadata = None \<rparr>"

definition duplicate_ir_new :: ConfigIR where
  "duplicate_ir_new =
     \<lparr> services =
         [\<lparr> name = ''dup'', type = Api, public = False, handlesPII = False,
            network = [], dependsOn = [], resourceLimits = None \<rparr>],
       metadata = None \<rparr>"


section \<open>The parser and validator (src/compiler/parser.ts)\<close>

subsection \<open>Deserialized values and validation issues\<close>

text \<open>The tree \<open>YAML.load\<close> or \<open>JSON.parse\<close> returns. The value \<open>undefined\<close>, which is
  what reading an absent key gives, is \<open>None\<close> of type \<open>json option\<close>.\<close>

datatype json =
    JNull
  | JBool bool
  | JNumber number
  | JString string
  | JArray "json list"
  | JObject "(string \<times> json) list"

datatype PathElem = Key string | Index nat

text \<open>Of a \<open>ZodIssue\<close> the parser reads the path and the message.\<close>

record ZodIssue =
  path :: "PathElem list"
  message :: string

record ParseResult =
  ir :: "ConfigIR option"
  errors :: "string list"

text \<open>A path element inside \<open>e.path.join('.')\<close>: a key is itself, an index is printed.\<close>

fun string_of_PathElem :: "PathElem \<Rightarrow> string" where
  "string_of_PathElem (Key k) = k"
| "string_of_PathElem (Index i) = string_of_nat i"

text \<open>The callback of line 67.\<close>

definition issueLine :: "ZodIssue \<Rightarrow> string" where
  "issueLine e = join ''.'' (map string_of_PathElem (path e)) @ '': '' @ message e"

fun toUpperCase :: "ParseFormat \<Rightarrow> string" where
  "toUpperCase Yaml = ''YAML''"
| "toUpperCase Json = ''JSON''"

subsection \<open>parseConfigToIR\<close>

text \<open>The function calls three libraries that are not part of the repository; they are
  parameters here:
  \<^item> \<open>load\<close>: \<open>YAML.load\<close> or \<open>JSON.parse\<close>, by the format; \<open>Inl\<close> carries the message of
    the error it throws;
  \<^item> \<open>safeParse\<close>: \<open>configSchema.safeParse\<close>; \<open>Inl\<close> carries \<open>result.error.issues\<close>,
    \<open>Inr\<close> the services of \<open>result.data\<close>;
  \<^item> \<open>sha256_hex\<close>: the hexadecimal SHA-256 digest of a text.

  The validated services have the types of the IR: the booleans and the lists are
  present, so \<open>?? false\<close> and \<open>?? []\<close> of lines 83 to 90 return their left operand.\<close>

definition parseConfigToIR ::
  "(ParseFormat \<Rightarrow> string \<Rightarrow> string + json option) \<Rightarrow>
   (json option \<Rightarrow> ZodIssue list + Service list) \<Rightarrow>
   (string \<Rightarrow> string) \<Rightarrow> string \<Rightarrow> ParseFormat \<Rightarrow> ParseResult" where
  "parseConfigToIR load safeParse sha256_hex rawConfig format =
     (case load format rawConfig of
        Inl err \<Rightarrow>
          \<lparr> ir = None,
            errors = [''Failed to parse '' @ toUpperCase format @ '': '' @ err] \<rparr>
      | Inr parsed \<Rightarrow>
          (case safeParse parsed of
             Inl issues \<Rightarrow>
               \<lparr> ir = None,
                 errors = [''Schema validation failed: '' @
                           join ''; '' (map issueLine issues)] \<rparr>
           | Inr data \<Rightarrow>
               let hash = take 12 (sha256_hex rawConfig);
                   svcs =
                     map (\<lambda>s. \<lparr> name = name s, type = type s, public = public s,
                                 handlesPII = handlesPII s,
                                 network =
                                   map (\<lambda>n. \<lparr> host = host n, port = port n,
                                               protocol = protocol n \<rparr>) (network s),
                                 dependsOn = dependsOn s,
                                 resourceLimits = resourceLimits s \<rparr>) data;
                   ir' = \<lparr> services = svcs,
                           metadata = Some \<lparr> sourceFormat = format, rawHash = Some hash \<rparr> \<rparr>
               in \<lparr> ir = Some ir', errors = [] \<rparr>))"

subsection \<open>The schema\<close>

text \<open>The schema of lines 7 to 33 is written with the combinators of the validation
  library. Their behaviour, as the library documents it, is: a value of the wrong type is
  one issue at its path, with the message \<open>Required\<close> when the value is undefined; an
  object schema validates every declared key, whether or not another key failed, and
  ignores the other keys; an array schema validates every element at the path extended
  by its index; all the issues are collected in that order.\<close>

type_synonym 'a parsed = "ZodIssue list + 'a"

fun parsedType :: "json option \<Rightarrow> string" where
  "parsedType None = ''undefined''"
| "parsedType (Some JNull) = ''null''"
| "parsedType (Some (JBool b)) = ''boolean''"
| "parsedType (Some (JNumber x)) = ''number''"
| "parsedType (Some (JString s)) = ''string''"
| "parsedType (Some (JArray xs)) = ''array''"
| "parsedType (Some (JObject fs)) = ''object''"

definition invalid_type :: "PathElem list \<Rightarrow> string \<Rightarrow> json option \<Rightarrow> ZodIssue" where
  "invalid_type p expected v =
     \<lparr> path = p,
       message = (if v = None then ''Required''
                  else ''Expected '' @ expected @ '', received '' @ parsedType v) \<rparr>"

fun issues_of :: "'a parsed \<Rightarrow> ZodIssue list" where
  "issues_of (Inl es) = es"
| "issues_of (Inr x) = []"

text \<open>Two validations side by side: both run, and the issues of both are kept.\<close>

fun both :: "'a parsed \<Rightarrow> 'b parsed \<Rightarrow> ('a \<times> 'b) parsed" where
  "both (Inr a) (Inr b) = Inr (a, b)"
| "both x y = Inl (issues_of x @ issues_of y)"

fun z_string :: "PathElem list \<Rightarrow> json option \<Rightarrow> string parsed" where
  "z_string p (Some (JString s)) = Inr s"
| "z_string p v = Inl [invalid_type p ''string'' v]"

fun z_boolean :: "PathElem list \<Rightarrow> json option \<Rightarrow> bool parsed" where
  "z_boolean p (Some (JBool b)) = Inr b"
| "z_boolean p v = Inl [invalid_type p ''boolean'' v]"

fun z_number :: "PathElem list \<Rightarrow> json option \<Rightarrow> number parsed" where
  "z_number p (Some (JNumber x)) = Inr x"
| "z_number p v = Inl [invalid_type p ''number'' v]"

text \<open>\<open>z.number().int().nonnegative()\<close>: both checks run on a number.\<close>

fun z_number_int_nonnegative :: "PathElem list \<Rightarrow> json option \<Rightarrow> number parsed" where
  "z_number_int_nonnegative p (Some (JNumber x)) =
     (let issues =
            (if of_int \<lfloor>x\<rfloor> = x then []
             else [\<lparr> path = p, message = ''Expected integer, received float'' \<rparr>]) @
            (if x < 0
             then [\<lparr> path = p, message = ''Number must be greater than or equal to 0'' \<rparr>]
             else [])
      in if issues = [] then Inr x else Inl issues)"
| "z_number_int_nonnegative p v = Inl [invalid_type p ''number'' v]"

definition joinValues :: "string list \<Rightarrow> string" where
  "joinValues vals = join '' | '' (map (\<lambda>v. [CHR 0x27] @ v @ [CHR 0x27]) vals)"

fun z_enum :: "(string \<times> 'a) list \<Rightarrow> PathElem list \<Rightarrow> json option \<Rightarrow> 'a parsed" where
  "z_enum vals p (Some (JString s)) =
     (case map_of vals s of
        Some c \<Rightarrow> Inr c
      | None \<Rightarrow>
          Inl [\<lparr> path = p,
                 message = ''Invalid enum value. Expected '' @ joinValues (map fst vals) @
                           '', received '' @ [CHR 0x27] @ s @ [CHR 0x27] \<rparr>])"
| "z_enum vals p v = Inl [invalid_type p (joinValues (map fst vals)) v]"

text \<open>\<open>.default(d)\<close> validates the default in place of an undefined value; \<open>.optional()\<close>
  accepts an undefined value as it is.\<close>

definition z_default ::
  "json \<Rightarrow> (PathElem list \<Rightarrow> json option \<Rightarrow> 'a parsed) \<Rightarrow>
   PathElem list \<Rightarrow> json option \<Rightarrow> 'a parsed" where
  "z_default d inner p v = inner p (Some (case v of None \<Rightarrow> d | Some x \<Rightarrow> x))"

definition z_optional ::
  "(PathElem list \<Rightarrow> json option \<Rightarrow> 'a parsed) \<Rightarrow>
   PathElem list \<Rightarrow> json option \<Rightarrow> 'a option parsed" where
  "z_optional inner p v =
     (case v of
        None \<Rightarrow> Inr None
      | Some x \<Rightarrow> (case inner p v of Inl es \<Rightarrow> Inl es | Inr a \<Rightarrow> Inr (Some a)))"

fun z_array_elems ::
  "(PathElem list \<Rightarrow> json option \<Rightarrow> 'a parsed) \<Rightarrow> PathElem list \<Rightarrow> nat \<Rightarrow> json list \<Rightarrow>
   'a list parsed" where
  "z_array_elems inner p i [] = Inr []"
| "z_array_elems inner p i (x # xs) =
     (case both (inner (p @ [Index i]) (Some x)) (z_array_elems inner p (Suc i) xs) of
        Inl es \<Rightarrow> Inl es
      | Inr (a, as) \<Rightarrow> Inr (a # as))"

fun z_array ::
  "(PathElem list \<Rightarrow> json option \<Rightarrow> 'a parsed) \<Rightarrow> PathElem list \<Rightarrow> json option \<Rightarrow>
   'a list parsed" where
  "z_array inner p (Some (JArray xs)) = z_array_elems inner p 0 xs"
| "z_array inner p v = Inl [invalid_type p ''array'' v]"

text \<open>\<open>data[key]\<close> of an object: the value of the key, or undefined.\<close>

definition field :: "(string \<times> json) list \<Rightarrow> string \<Rightarrow> json option" where
  "field fs k = map_of fs k"

fun networkBindingSchema :: "PathElem list \<Rightarrow> json option \<Rightarrow> NetworkBinding parsed" where
  "networkBindingSchema p (Some (JObject fs)) =
     (case both (z_string (p @ [Key ''host'']) (field fs ''host''))
          (both (z_number_int_nonnegative (p @ [Key ''port'']) (field fs ''port''))
             (z_enum [(''http'', Http), (''https'', Https), (''tcp'', Tcp)]
                (p @ [Key ''protocol'']) (field fs ''protocol''))) of
        Inl es \<Rightarrow> Inl es
      | Inr (h, po, pr) \<Rightarrow> Inr \<lparr> host = h, port = po, protocol = pr \<rparr>)"
| "networkBindingSchema p v = Inl [invalid_type p ''object'' v]"

text \<open>The limits: every key is optional, which \<open>.partial()\<close> states once more, and so is
  the object itself.\<close>

fun resourceLimitsObject :: "PathElem list \<Rightarrow> json option \<Rightarrow> ResourceLimits parsed" where
  "resourceLimitsObject p (Some (JObject fs)) =
     (case both (z_optional z_number (p @ [Key ''cpu'']) (field fs ''cpu''))
          (z_optional z_number (p @ [Key ''memoryMb'']) (field fs ''memoryMb'')) of
        Inl es \<Rightarrow> Inl es
      | Inr (c, m) \<Rightarrow> Inr \<lparr> cpu = c, memoryMb = m \<rparr>)"
| "resourceLimitsObject p v = Inl [invalid_type p ''object'' v]"

definition resourceLimitsSchema ::
  "PathElem list \<Rightarrow> json option \<Rightarrow> ResourceLimits option parsed" where
  "resourceLimitsSchema = z_optional resourceLimitsObject"

fun serviceSchema :: "PathElem list \<Rightarrow> json option \<Rightarrow> Service parsed" where
  "serviceSchema p (Some (JObject fs)) =
     (case both (z_string (p @ [Key ''name'']) (field fs ''name''))
          (both (z_enum [(''api'', Api), (''db'', Db), (''queue'', Queue), (''cache'', Cache)]
                   (p @ [Key ''type'']) (field fs ''type''))
          (both (z_default (JBool False) z_boolean (p @ [Key ''public'']) (field fs ''public''))
          (both (z_default (JBool False) z_boolean (p @ [Key ''handlesPII''])
                   (field fs ''handlesPII''))
          (both (z_default (JArray []) (z_array networkBindingSchema) (p @ [Key ''network''])
                   (field fs ''network''))
          (both (z_default (JArray []) (z_array z_string) (p @ [Key ''dependsOn''])
                   (field fs ''dependsOn''))
                (resourceLimitsSchema (p @ [Key ''resourceLimits''])
                   (field fs ''resourceLimits''))))))) of
        Inl es \<Rightarrow> Inl es
      | Inr (n, t, pu, pii, nw, dep, rl) \<Rightarrow>
          Inr \<lparr> name = n, type = t, public = pu, handlesPII = pii, network = nw,
                dependsOn = dep, resourceLimits = rl \<rparr>)"
| "serviceSchema p v = Inl [invalid_type p ''object'' v]"

fun configSchema :: "PathElem list \<Rightarrow> json option \<Rightarrow> Service list parsed" where
  "configSchema p (Some (JObject fs)) =
     z_array serviceSchema (p @ [Key ''services'']) (field fs ''services'')"
| "configSchema p v = Inl [invalid_type p ''object'' v]"

text \<open>\<open>configSchema.safeParse(parsed)\<close> starts at the empty path.\<close>

definition configSchema_safeParse :: "json option \<Rightarrow> ZodIssue list + Service list" where
  "configSchema_safeParse parsed = configSchema [] parsed"

text \<open>The trees of Scenario 1 and of Scenario 5 (a service without \<open>type\<close>), and a digest
  to stand for the one of the library.\<close>

definition scenario1_json :: json where
  "scenario1_json =
     JObject [(''services'',
       JArray [JObject [(''name'', JString ''user-db''), (''type'', JString ''db''),
                        (''public'', JBool True), (''network'', JArray []),
                        (''dependsOn'', JArray []),
                        (''resourceLimits'',
                           JObject [(''cpu'', JNumber 1), (''memoryMb'', JNumber 512)])]])]"

definition scenario5_json :: json where
  "scenario5_json =
     JObject [(''services'',
       JArray [JObject [(''name'', JString ''api-gw''), (''public'', JBool True)]])]"

definition sample_digest :: string where
  "sample_digest = ''9a3ef3d9a2dd4c1e8b7f60a1c2d3e4f5061728394a5b6c7d8e9f0a1b2c3d4e5f''"



section \<open>Properties of the invariant engine\<close>

lemma for_rules_append: "for_rules rs svc acc = acc @ List.map_filter (\<lambda>r. r svc) rs"
  by (induction rs arbitrary: acc) (auto split: option.splits)

lemma for_services_append: "for_services svcs acc = acc @ concat (map violations_of svcs)"
  by (induction svcs arbitrary: acc) (auto simp: for_rules_append violations_of_def RULES_def)

lemma checkInvariants_concat: "checkInvariants cfg = concat (map violations_of (services cfg))"
  by (simp add: checkInvariants_def for_services_append)

lemma R1_serviceName: "ruleNoPublicDatabases s = Some v \<Longrightarrow> serviceName v = name s"
  unfolding ruleNoPublicDatabases_def Let_def by (cases "type s \<noteq> Db"; cases "list_ex (\<lambda>n. host n = ''0.0.0.0'' \<or> public s) (network s)") auto

lemma R2_serviceName: "rulePublicServicesRequireTLS s = Some v \<Longrightarrow> serviceName v = name s"
  unfolding rulePublicServicesRequireTLS_def Let_def by (auto split: if_splits)

lemma R3_serviceName: "ruleNoPIIPublicExposure s = Some v \<Longrightarrow> serviceName v = name s"
  unfolding ruleNoPIIPublicExposure_def by (auto split: if_splits)

lemma R4_serviceName: "ruleResourceLimitsDefined s = Some v \<Longrightarrow> serviceName v = name s"
  unfolding ruleResourceLimitsDefined_def by (auto split: if_splits option.splits)

lemma in_set_map_filter: "y \<in> set (List.map_filter f xs) \<longleftrightarrow> (\<exists>x \<in> set xs. f x = Some y)"
  by (induction xs) (auto split: option.splits)

lemma violations_of_serviceName: "v \<in> set (violations_of s) \<Longrightarrow> serviceName v = name s"
  unfolding violations_of_def in_set_map_filter
  by (auto dest: R1_serviceName R2_serviceName R3_serviceName R4_serviceName)

lemma R1_fires_iff:
  "ruleNoPublicDatabases s \<noteq> None \<longleftrightarrow>
     type s = Db \<and> network s \<noteq> [] \<and> (public s \<or> (\<exists>n \<in> set (network s). host n = ''0.0.0.0''))"
  by (cases "network s") (auto simp: ruleNoPublicDatabases_def Let_def list_ex_iff)


section \<open>Properties of the drift differencer\<close>

lemma Map_get_Map_set: "Map_get (Map_set m k v) k' = (if k' = k then Some v else Map_get m k')"
  by (induction m) auto

lemma orEmpty_index_loop:
  "orEmpty (Map_get (indexByService_loop vs m) n) =
     orEmpty (Map_get m n) @ filter (\<lambda>v. serviceName v = n) vs"
  by (induction vs arbitrary: m) (auto simp: Map_get_Map_set Let_def orEmpty_def)

lemma index_attributed: "orEmpty (Map_get (indexByService vs) n) = attributed vs n"
  by (simp add: indexByService_def orEmpty_index_loop attributed_def) (simp add: orEmpty_def)

lemma countFor_attributed: "countFor vs n = length (attributed vs n)"
  by (simp add: countFor_def index_attributed)

lemma countFor_nonzero_iff: "countFor vs n \<noteq> 0 \<longleftrightarrow> (\<exists>v \<in> set vs. serviceName v = n)"
  by (simp add: countFor_attributed attributed_def filter_empty_conv)

lemma set_new_Set: "set (new_Set xs s) = set s \<union> set xs"
  by (induction xs arbitrary: s) (auto simp: Set_add_def)

lemma distinct_new_Set: "distinct s \<Longrightarrow> distinct (new_Set xs s)"
  by (induction xs arbitrary: s) (auto simp: Set_add_def)

lemma set_allServiceNames:
  "set (allServiceNames oldIR newIR) = name ` set (services oldIR) \<union> name ` set (services newIR)"
  by (simp add: allServiceNames_def set_new_Set)

lemma distinct_allServiceNames: "distinct (allServiceNames oldIR newIR)"
  by (simp add: allServiceNames_def distinct_new_Set)

lemma body_new:
  "st_totalNewViolations (diff_body oi ni n st) =
     st_totalNewViolations st + (length (orEmpty (Map_get ni n)) - length (orEmpty (Map_get oi n)))"
  by (simp add: diff_body_def Let_def)

lemma body_resolved:
  "st_totalResolvedViolations (diff_body oi ni n st) =
     st_totalResolvedViolations st + (length (orEmpty (Map_get oi n)) - length (orEmpty (Map_get ni n)))"
  by (simp add: diff_body_def Let_def)

lemma body_changes:
  "st_changes (diff_body oi ni n st) =
     st_changes st @
     (if orEmpty (Map_get oi n) = [] \<and> orEmpty (Map_get ni n) = [] then []
      else [changeFor n (length (orEmpty (Map_get oi n))) (orEmpty (Map_get ni n))])"
  by (simp add: diff_body_def Let_def changeFor_def countMessage_def impactOf_def currentViolations_def)

lemma loop_new:
  "st_totalNewViolations (diff_loop oi ni ns st) =
     st_totalNewViolations st +
     (\<Sum>n\<leftarrow>ns. length (orEmpty (Map_get ni n)) - length (orEmpty (Map_get oi n)))"
  by (induction ns arbitrary: st) (simp_all add: body_new)

lemma loop_resolved:
  "st_totalResolvedViolations (diff_loop oi ni ns st) =
     st_totalResolvedViolations st +
     (\<Sum>n\<leftarrow>ns. length (orEmpty (Map_get oi n)) - length (orEmpty (Map_get ni n)))"
  by (induction ns arbitrary: st) (simp_all add: body_resolved)

lemma loop_changes:
  "st_changes (diff_loop oi ni ns st) =
     st_changes st @
     map (\<lambda>n. changeFor n (length (orEmpty (Map_get oi n))) (orEmpty (Map_get ni n)))
       (filter (\<lambda>n. orEmpty (Map_get oi n) \<noteq> [] \<or> orEmpty (Map_get ni n) \<noteq> []) ns)"
  by (induction ns arbitrary: st) (simp_all add: body_changes)

lemma diff_totalNew:
  "totalNewViolations (summary (diffConfigs A B ov nv)) =
     (\<Sum>n\<leftarrow>allServiceNames A B. countFor nv n - countFor ov n)"
  by (simp add: diffConfigs_def Let_def loop_new countFor_def)

lemma diff_totalResolved:
  "totalResolvedViolations (summary (diffConfigs A B ov nv)) =
     (\<Sum>n\<leftarrow>allServiceNames A B. countFor ov n - countFor nv n)"
  by (simp add: diffConfigs_def Let_def loop_resolved countFor_def)

lemma diff_changes:
  "changes (diffConfigs A B ov nv) =
     map (\<lambda>n. changeFor n (countFor ov n) (attributed nv n))
       (filter (\<lambda>n. countFor ov n \<noteq> 0 \<or> countFor nv n \<noteq> 0) (allServiceNames A B))"
  by (simp add: diffConfigs_def Let_def loop_changes countFor_def index_attributed)

lemma diff_change_names:
  "map serviceName_change (changes (diffConfigs A B ov nv)) =
     filter (\<lambda>n. countFor ov n \<noteq> 0 \<or> countFor nv n \<noteq> 0) (allServiceNames A B)"
  by (simp add: diff_changes changeFor_def comp_def)





lemma changeFor_name: "serviceName_change (changeFor n k vs) = n"
  by (simp add: changeFor_def)



lemma change_of_name:
  assumes "c \<in> set (changes (diffConfigs A B ov nv))"
  shows "c = changeFor (serviceName_change c) (countFor ov (serviceName_change c))
               (attributed nv (serviceName_change c))"
proof -
  from assms obtain m where "c = changeFor m (countFor ov m) (attributed nv m)"
    unfolding diff_changes set_map by blast
  then show ?thesis by (simp add: changeFor_name)
qed


section \<open>Properties of the parser and validator\<close>

lemma issues_of_both: "issues_of (both x y) = issues_of x @ issues_of y"
  by (cases x; cases y) simp_all

lemma issues_of_Inl: "e \<in> set (issues_of r) \<Longrightarrow> \<exists>es. r = Inl es \<and> e \<in> set es"
  by (cases r) simp_all

lemma issues_of_array_elems:
  "issues_of (z_array_elems inner p k (x # xs)) =
     issues_of (inner (p @ [Index k]) (Some x)) @ issues_of (z_array_elems inner p (Suc k) xs)"
  by (cases "inner (p @ [Index k]) (Some x)"; cases "z_array_elems inner p (Suc k) xs") auto

lemma array_elem_issue:
  "i < length xs \<Longrightarrow> e \<in> set (issues_of (inner (p @ [Index (k + i)]) (Some (xs ! i)))) \<Longrightarrow>
   e \<in> set (issues_of (z_array_elems inner p k xs))"
proof (induction xs arbitrary: k i)
  case Nil
  then show ?case by simp
next
  case (Cons x xs)
  show ?case
  proof (cases i)
    case 0
    with Cons.prems show ?thesis by (simp add: issues_of_array_elems del: z_array_elems.simps)
  next
    case (Suc j)
    with Cons.prems have "e \<in> set (issues_of (z_array_elems inner p (Suc k) xs))"
      by (intro Cons.IH[of j "Suc k"]) simp_all
    then show ?thesis by (simp add: issues_of_array_elems del: z_array_elems.simps)
  qed
qed

lemma service_missing_type:
  assumes "field fs ''type'' = None"
  shows "\<lparr> path = p @ [Key ''type''], message = ''Required'' \<rparr>
           \<in> set (issues_of (serviceSchema p (Some (JObject fs))))"
proof -
  let ?rest = "both (z_default (JBool False) z_boolean (p @ [Key ''public'']) (field fs ''public''))
          (both (z_default (JBool False) z_boolean (p @ [Key ''handlesPII''])
                   (field fs ''handlesPII''))
          (both (z_default (JArray []) (z_array networkBindingSchema) (p @ [Key ''network''])
                   (field fs ''network''))
          (both (z_default (JArray []) (z_array z_string) (p @ [Key ''dependsOn''])
                   (field fs ''dependsOn''))
                (resourceLimitsSchema (p @ [Key ''resourceLimits''])
                   (field fs ''resourceLimits'')))))"
  let ?all = "both (z_string (p @ [Key ''name'']) (field fs ''name''))
          (both (z_enum [(''api'', Api), (''db'', Db), (''queue'', Queue), (''cache'', Cache)]
                   (p @ [Key ''type'']) (field fs ''type'')) ?rest)"
  have "issues_of (serviceSchema p (Some (JObject fs))) = issues_of ?all"
    by (cases ?all) (simp_all split: prod.splits)
  moreover have "\<lparr> path = p @ [Key ''type''], message = ''Required'' \<rparr> \<in> set (issues_of ?all)"
    unfolding issues_of_both using assms by (simp add: invalid_type_def)
  ultimately show ?thesis by simp
qed

lemma config_missing_type:
  assumes "field obj ''services'' = Some (JArray xs)" and "i < length xs"
    and "xs ! i = JObject fs" and "field fs ''type'' = None"
  shows "\<exists>es. configSchema_safeParse (Some (JObject obj)) = Inl es \<and>
      \<lparr> path = [Key ''services'', Index i, Key ''type''], message = ''Required'' \<rparr> \<in> set es"
proof -
  have "\<lparr> path = [Key ''services'', Index i, Key ''type''], message = ''Required'' \<rparr>
      \<in> set (issues_of (serviceSchema ([Key ''services''] @ [Index (0 + i)]) (Some (xs ! i))))"
    using service_missing_type[OF assms(4), of "[Key ''services'', Index i]"] assms(3) by simp
  then have "\<lparr> path = [Key ''services'', Index i, Key ''type''], message = ''Required'' \<rparr>
      \<in> set (issues_of (z_array_elems serviceSchema [Key ''services''] 0 xs))"
    by (rule array_elem_issue[OF assms(2)])
  then have "\<lparr> path = [Key ''services'', Index i, Key ''type''], message = ''Required'' \<rparr>
      \<in> set (issues_of (configSchema_safeParse (Some (JObject obj))))"
    using assms(1) by (simp add: configSchema_safeParse_def)
  then show ?thesis by (rule issues_of_Inl)
qed

lemma sublist_join: "x \<in> set xs \<Longrightarrow> sublist x (join sep xs)"
proof (induction sep xs rule: join.induct)
  case (1 sep)
  then show ?case by simp
next
  case (2 sep y)
  then show ?case by simp
next
  case (3 sep y z zs)
  show ?case
  proof (cases "x = y")
    case True
    then show ?thesis by simp
  next
    case False
    with 3 have "sublist x (join sep (z # zs))" by simp
    then obtain ps ss where "join sep (z # zs) = ps @ x @ ss" by (auto simp: sublist_def)
    then have "join sep (y # z # zs) = (y @ sep @ ps) @ x @ ss" by simp
    then show ?thesis unfolding sublist_def by blast
  qed
qed

lemma issueLine_missing_type:
  "issueLine \<lparr> path = [Key ''services'', Index i, Key ''type''], message = ''Required'' \<rparr> =
     ''services.'' @ string_of_nat i @ ''.type: Required''"
  by (simp add: issueLine_def)

section \<open>The claims\<close>

subsection \<open>Invariant engine\<close>

text \<open>Claim C1. The claim is that a service of type \<open>db\<close> that is public has an
  R1_NO_PUBLIC_DB violation, also when its network list is empty, as in Scenario 1. The rule
  tests \<open>public\<close> inside the callback of \<open>some\<close>, which never runs on an empty list: the
  service of Scenario 1 is a public database, the rule returns nothing for it, and the
  evaluation of the whole configuration is empty.\<close>

theorem R1_public_db_without_binding:
  "type scenario1_service = Db \<and> public scenario1_service \<and>
   ruleNoPublicDatabases scenario1_service = None \<and> checkInvariants scenario1_ir = []"
  by (simp add: checkInvariants_def scenario1_ir_def scenario1_service_def RULES_def
      ruleNoPublicDatabases_def rulePublicServicesRequireTLS_def ruleNoPIIPublicExposure_def
      ruleResourceLimitsDefined_def)

text \<open>Claim C2. R2_PUBLIC_REQUIRES_TLS fires for a service if and only if the service is
  public, some binding has the protocol http and no binding has the protocol https; the
  violation has the identifier of the rule, the name of the service and the severity high;
  a service with no http binding never triggers the rule.\<close>

theorem R2_fires_iff:
  "(rulePublicServicesRequireTLS s \<noteq> None \<longleftrightarrow>
      public s \<and> (\<exists>n \<in> set (network s). protocol n = Http) \<and>
      \<not> (\<exists>n \<in> set (network s). protocol n = Https)) \<and>
   (\<forall>v. rulePublicServicesRequireTLS s = Some v \<longrightarrow>
      id_viol v = ''R2_PUBLIC_REQUIRES_TLS'' \<and> serviceName v = name s \<and> severity v = High) \<and>
   ((\<forall>n \<in> set (network s). protocol n \<noteq> Http) \<longrightarrow> rulePublicServicesRequireTLS s = None)"
  by (auto simp: rulePublicServicesRequireTLS_def Let_def list_ex_iff)

theorem R2_fires_iff_witness:
  "(\<exists>v. rulePublicServicesRequireTLS scenario2_service = Some v \<and>
        id_viol v = ''R2_PUBLIC_REQUIRES_TLS'' \<and> serviceName v = ''api-gw'' \<and>
        severity v = High) \<and>
   public scenario1_service \<and> rulePublicServicesRequireTLS scenario1_service = None"
proof -
  have fires: "public scenario2_service \<and>
      (\<exists>n \<in> set (network scenario2_service). protocol n = Http) \<and>
      \<not> (\<exists>n \<in> set (network scenario2_service). protocol n = Https)"
    by (simp add: scenario2_service_def)
  have no_http: "\<forall>n \<in> set (network scenario1_service). protocol n \<noteq> Http"
    by (simp add: scenario1_service_def)
  have nm: "name scenario2_service = ''api-gw''" and pub: "public scenario1_service"
    by (simp_all add: scenario2_service_def scenario1_service_def)
  from R2_fires_iff[of scenario2_service] fires nm
  have "\<exists>v. rulePublicServicesRequireTLS scenario2_service = Some v \<and>
        id_viol v = ''R2_PUBLIC_REQUIRES_TLS'' \<and> serviceName v = ''api-gw'' \<and>
        severity v = High"
    by auto
  moreover from R2_fires_iff[of scenario1_service] no_http
  have "rulePublicServicesRequireTLS scenario1_service = None" by blast
  ultimately show ?thesis using pub by blast
qed

text \<open>Claim C3. \<open>checkInvariants\<close> returns, for the services in their order, the
  violations of the four rules, concatenated; one service may trigger several rules: the
  service of Scenario 2 triggers R2_PUBLIC_REQUIRES_TLS and R4_RESOURCE_LIMITS.\<close>

theorem checkInvariants_all_rules_in_order:
  "checkInvariants cfg = concat (map violations_of (services cfg)) \<and>
   map id_viol (checkInvariants scenario2_ir) = [''R2_PUBLIC_REQUIRES_TLS'', ''R4_RESOURCE_LIMITS'']"
proof
  show "checkInvariants cfg = concat (map violations_of (services cfg))"
    by (rule checkInvariants_concat)
  show "map id_viol (checkInvariants scenario2_ir) = [''R2_PUBLIC_REQUIRES_TLS'', ''R4_RESOURCE_LIMITS'']"
    by (simp add: checkInvariants_def scenario2_ir_def scenario2_service_def RULES_def
      ruleNoPublicDatabases_def rulePublicServicesRequireTLS_def ruleNoPIIPublicExposure_def
      ruleResourceLimitsDefined_def)
qed

theorem checkInvariants_all_rules_in_order_witness:
  "map (\<lambda>v. (serviceName v, id_viol v))
     (concat (map violations_of (services duplicate_ir))) =
   [(''dup'', ''R4_RESOURCE_LIMITS''), (''dup'', ''R3_NO_PII_PUBLIC''),
    (''dup'', ''R4_RESOURCE_LIMITS'')]"
proof -
  have "map (\<lambda>v. (serviceName v, id_viol v)) (checkInvariants duplicate_ir) =
      [(''dup'', ''R4_RESOURCE_LIMITS''), (''dup'', ''R3_NO_PII_PUBLIC''),
       (''dup'', ''R4_RESOURCE_LIMITS'')]"
    by code_simp
  with checkInvariants_all_rules_in_order[of duplicate_ir] show ?thesis by simp
qed

text \<open>Claim C9. Every violation \<open>checkInvariants\<close> returns carries the name of a
  service of the configuration.\<close>

theorem violations_name_services:
  "\<forall>v \<in> set (checkInvariants cfg). \<exists>s \<in> set (services cfg). serviceName v = name s"
  by (auto simp: checkInvariants_concat dest: violations_of_serviceName)

theorem violations_name_services_witness:
  "map serviceName (checkInvariants scenario2_ir) = [''api-gw'', ''api-gw'']"
proof -
  have "length (checkInvariants scenario2_ir) = 2" by code_simp
  then obtain v w where vw: "checkInvariants scenario2_ir = [v, w]"
    by (auto simp: length_Suc_conv numeral_2_eq_2)
  have nm: "\<forall>s \<in> set (services scenario2_ir). name s = ''api-gw''"
    by (simp add: scenario2_ir_def scenario2_service_def)
  from violations_name_services[of scenario2_ir] nm
  have "\<forall>v \<in> set (checkInvariants scenario2_ir). serviceName v = ''api-gw''" by metis
  with vw show ?thesis by simp
qed

subsection \<open>Drift differencer\<close>

text \<open>Claim C6. Comparing a configuration with itself, with the same violation list on
  both sides, gives no new and no resolved violation, and every change reported is
  neutral.\<close>

theorem diff_self_neutral:
  "totalNewViolations (summary (diffConfigs A A V V)) = 0 \<and>
   totalResolvedViolations (summary (diffConfigs A A V V)) = 0 \<and>
   (\<forall>c \<in> set (changes (diffConfigs A A V V)). riskImpact c = neutral)"
  by (auto simp: diff_totalNew diff_totalResolved diff_changes changeFor_def impactOf_def countFor_attributed)

theorem diff_self_neutral_witness:
  "map riskImpact (changes (diffConfigs scenario2_ir scenario2_ir
      (checkInvariants scenario2_ir) (checkInvariants scenario2_ir))) = [neutral] \<and>
   totalNewViolations (summary (diffConfigs scenario2_ir scenario2_ir
      (checkInvariants scenario2_ir) (checkInvariants scenario2_ir))) = 0 \<and>
   totalResolvedViolations (summary (diffConfigs scenario2_ir scenario2_ir
      (checkInvariants scenario2_ir) (checkInvariants scenario2_ir))) = 0"
proof -
  let ?D = "diffConfigs scenario2_ir scenario2_ir (checkInvariants scenario2_ir)
      (checkInvariants scenario2_ir)"
  have "length (changes ?D) = 1" by code_simp
  then obtain c where c: "changes ?D = [c]"
    by (auto simp: length_Suc_conv)
  note r = diff_self_neutral[of scenario2_ir "checkInvariants scenario2_ir"]
  from r c have "riskImpact c = neutral" by simp
  with c have "map riskImpact (changes ?D) = [neutral]" by simp
  with r show ?thesis by blast
qed

text \<open>Claim C7. A change is reported for a name if and only if the name is the name
  of a service of the old or of the new configuration and the count of the violations
  attributed to it is not zero on one side at least, that is, some violation of the old
  list or of the new list carries the name. So a name with no violation on either
  side has no change; and the other fields of the services play no part: configurations
  with the same names of services, in the same order, have the same result.\<close>

theorem change_iff_counted:
  "((\<exists>c \<in> set (changes (diffConfigs oldIR newIR oldViolations newViolations)).
       serviceName_change c = n) \<longleftrightarrow>
    (n \<in> name ` set (services oldIR) \<union> name ` set (services newIR)) \<and>
    ((\<exists>v \<in> set oldViolations. serviceName v = n) \<or>
     (\<exists>v \<in> set newViolations. serviceName v = n))) \<and>
   ((\<exists>c \<in> set (changes (diffConfigs oldIR newIR oldViolations newViolations)).
       serviceName_change c = n) \<longleftrightarrow>
    (n \<in> name ` set (services oldIR) \<union> name ` set (services newIR)) \<and>
    (length (filter (\<lambda>v. serviceName v = n) oldViolations) \<noteq> 0 \<or>
     length (filter (\<lambda>v. serviceName v = n) newViolations) \<noteq> 0)) \<and>
   (map name (services oldIR) = map name (services oldIR') \<and>
    map name (services newIR) = map name (services newIR') \<longrightarrow>
      diffConfigs oldIR newIR oldViolations newViolations =
      diffConfigs oldIR' newIR' oldViolations newViolations)"
proof (intro conjI)
  let ?D = "diffConfigs oldIR newIR oldViolations newViolations"
  have "(\<exists>c \<in> set (changes ?D). serviceName_change c = n) \<longleftrightarrow>
      n \<in> set (map serviceName_change (changes ?D))"
    by auto
  also have "\<dots> \<longleftrightarrow> n \<in> set (allServiceNames oldIR newIR) \<and>
       (countFor oldViolations n \<noteq> 0 \<or> countFor newViolations n \<noteq> 0)"
    unfolding diff_change_names by simp
  finally have emitted: "(\<exists>c \<in> set (changes ?D). serviceName_change c = n) \<longleftrightarrow>
      (n \<in> name ` set (services oldIR) \<union> name ` set (services newIR)) \<and>
      (countFor oldViolations n \<noteq> 0 \<or> countFor newViolations n \<noteq> 0)"
    by (simp add: set_allServiceNames)
  show "(\<exists>c \<in> set (changes ?D). serviceName_change c = n) \<longleftrightarrow>
      (n \<in> name ` set (services oldIR) \<union> name ` set (services newIR)) \<and>
      ((\<exists>v \<in> set oldViolations. serviceName v = n) \<or>
       (\<exists>v \<in> set newViolations. serviceName v = n))"
    unfolding emitted countFor_nonzero_iff ..
  show "(\<exists>c \<in> set (changes ?D). serviceName_change c = n) \<longleftrightarrow>
      (n \<in> name ` set (services oldIR) \<union> name ` set (services newIR)) \<and>
      (length (filter (\<lambda>v. serviceName v = n) oldViolations) \<noteq> 0 \<or>
       length (filter (\<lambda>v. serviceName v = n) newViolations) \<noteq> 0)"
    unfolding emitted countFor_attributed attributed_def ..
  show "map name (services oldIR) = map name (services oldIR') \<and>
      map name (services newIR) = map name (services newIR') \<longrightarrow>
      ?D = diffConfigs oldIR' newIR' oldViolations newViolations"
    by (simp add: diffConfigs_def allServiceNames_def)
qed

theorem change_iff_counted_witness:
  "(\<exists>v \<in> set (checkInvariants scenario3_ir). serviceName v = ''cache1'') \<and>
   (\<exists>c \<in> set (changes (diffConfigs scenario3_ir scenario3_ir_new
        (checkInvariants scenario3_ir) (checkInvariants scenario3_ir_new))).
      serviceName_change c = ''cache1'') \<and>
   services scenario3_ir_new \<noteq> services scenario3_ir_resized \<and>
   checkInvariants scenario3_ir_new = [] \<and> checkInvariants scenario3_ir_resized = [] \<and>
   \<not> (\<exists>c \<in> set (changes (diffConfigs scenario3_ir_new scenario3_ir_resized
        (checkInvariants scenario3_ir_new) (checkInvariants scenario3_ir_resized))).
      serviceName_change c = ''cache1'') \<and>
   diffConfigs scenario3_ir scenario3_ir_new
     (checkInvariants scenario3_ir) (checkInvariants scenario3_ir_new) =
   diffConfigs scenario3_ir scenario3_ir_resized
     (checkInvariants scenario3_ir) (checkInvariants scenario3_ir_new)"
proof -
  have in_old: "''cache1'' \<in> name ` set (services scenario3_ir) \<union>
      name ` set (services scenario3_ir_new)"
    by (simp add: scenario3_ir_def scenario3_ir_new_def)
  have ids: "map serviceName (checkInvariants scenario3_ir) = [''cache1'', ''cache1'']"
    by code_simp
  then obtain v w where vw: "checkInvariants scenario3_ir = [v, w]"
      and "serviceName v = ''cache1''"
    by auto
  then have old_has: "\<exists>v \<in> set (checkInvariants scenario3_ir). serviceName v = ''cache1''"
    by simp
  have none: "checkInvariants scenario3_ir_new = []" "checkInvariants scenario3_ir_resized = []"
    by code_simp+
  then have no_viol:
      "\<not> ((\<exists>v \<in> set (checkInvariants scenario3_ir_new). serviceName v = ''cache1'') \<or>
          (\<exists>v \<in> set (checkInvariants scenario3_ir_resized). serviceName v = ''cache1''))"
    by simp
  have differ: "services scenario3_ir_new \<noteq> services scenario3_ir_resized"
    by (simp add: scenario3_ir_new_def scenario3_ir_resized_def)
  have names: "map name (services scenario3_ir) = map name (services scenario3_ir) \<and>
      map name (services scenario3_ir_new) = map name (services scenario3_ir_resized)"
    by (simp add: scenario3_ir_new_def scenario3_ir_resized_def)
  note r = change_iff_counted[of scenario3_ir scenario3_ir_new "checkInvariants scenario3_ir"
      "checkInvariants scenario3_ir_new" "''cache1''" scenario3_ir scenario3_ir_resized]
  from r in_old old_has
  have "\<exists>c \<in> set (changes (diffConfigs scenario3_ir scenario3_ir_new
        (checkInvariants scenario3_ir) (checkInvariants scenario3_ir_new))).
      serviceName_change c = ''cache1''"
    by blast
  moreover from change_iff_counted[of scenario3_ir_new scenario3_ir_resized
      "checkInvariants scenario3_ir_new" "checkInvariants scenario3_ir_resized" "''cache1''"]
    no_viol
  have "\<not> (\<exists>c \<in> set (changes (diffConfigs scenario3_ir_new scenario3_ir_resized
        (checkInvariants scenario3_ir_new) (checkInvariants scenario3_ir_resized))).
      serviceName_change c = ''cache1'')"
    by blast
  moreover from r names
  have "diffConfigs scenario3_ir scenario3_ir_new
     (checkInvariants scenario3_ir) (checkInvariants scenario3_ir_new) =
   diffConfigs scenario3_ir scenario3_ir_resized
     (checkInvariants scenario3_ir) (checkInvariants scenario3_ir_new)"
    by blast
  ultimately show ?thesis using differ old_has none by blast
qed



text \<open>Claim C10. The names of the changes \<open>diffConfigs\<close> returns are pairwise distinct,
  also when a configuration has several services of one name, and the change of a name is
  the one computed from all the violations attributed to that name: the count of the old
  ones and the list of the new ones.\<close>

theorem change_names_distinct:
  "distinct (map serviceName_change (changes (diffConfigs oldIR newIR oldViolations newViolations))) \<and>
   (\<forall>c \<in> set (changes (diffConfigs oldIR newIR oldViolations newViolations)).
      c = changeFor (serviceName_change c)
            (length (attributed oldViolations (serviceName_change c)))
            (attributed newViolations (serviceName_change c)))"
proof
  show "distinct (map serviceName_change (changes (diffConfigs oldIR newIR oldViolations newViolations)))"
    unfolding diff_change_names by (simp add: distinct_allServiceNames)
  show "\<forall>c \<in> set (changes (diffConfigs oldIR newIR oldViolations newViolations)).
      c = changeFor (serviceName_change c)
            (length (attributed oldViolations (serviceName_change c)))
            (attributed newViolations (serviceName_change c))"
    using change_of_name[of _ oldIR newIR oldViolations newViolations]
    unfolding countFor_attributed by blast
qed

theorem change_names_distinct_witness:
  "\<not> distinct (map name (services duplicate_ir)) \<and>
   length (attributed (checkInvariants duplicate_ir) ''dup'') = 3 \<and>
   distinct (map serviceName_change (changes (diffConfigs duplicate_ir duplicate_ir_new
      (checkInvariants duplicate_ir) (checkInvariants duplicate_ir_new)))) \<and>
   changes (diffConfigs duplicate_ir duplicate_ir_new
      (checkInvariants duplicate_ir) (checkInvariants duplicate_ir_new)) =
     [changeFor ''dup'' 3 (attributed (checkInvariants duplicate_ir_new) ''dup'')]"
proof -
  let ?D = "diffConfigs duplicate_ir duplicate_ir_new (checkInvariants duplicate_ir)
      (checkInvariants duplicate_ir_new)"
  have dup: "\<not> distinct (map name (services duplicate_ir))"
    by (simp add: duplicate_ir_def)
  have three: "length (attributed (checkInvariants duplicate_ir) ''dup'') = 3"
    by code_simp
  have names: "map serviceName_change (changes ?D) = [''dup'']"
    by code_simp
  then obtain c where c: "changes ?D = [c]" and nm: "serviceName_change c = ''dup''"
    by auto
  note r = change_names_distinct[of duplicate_ir duplicate_ir_new
      "checkInvariants duplicate_ir" "checkInvariants duplicate_ir_new"]
  from r have d: "distinct (map serviceName_change (changes ?D))" by blast
  from r c have "c = changeFor (serviceName_change c)
      (length (attributed (checkInvariants duplicate_ir) (serviceName_change c)))
      (attributed (checkInvariants duplicate_ir_new) (serviceName_change c))"
    by simp
  with nm three
  have "c = changeFor ''dup'' 3 (attributed (checkInvariants duplicate_ir_new) ''dup'')"
    by simp
  with c dup three d show ?thesis by simp
qed

subsection \<open>Parser and validator\<close>

text \<open>Claim C4. When the raw text deserializes and the tree fails the schema, the
  result has no IR and one error string: the prefix "Schema validation failed: " and, for
  every issue in order, its path joined by dots, a colon and its message, the issues
  joined by "; ". When the element at index \<open>i\<close> of \<open>services\<close> is an object without
  \<open>type\<close>, the schema of the source fails, and the single error string names the path
  \<open>services.i.type\<close>.\<close>

theorem schema_failure_one_error:
  "(load format rawConfig = Inr parsed \<and> safeParse parsed = Inl issues \<longrightarrow>
      parseConfigToIR load safeParse sha256_hex rawConfig format =
        \<lparr> ir = None,
          errors = [''Schema validation failed: '' @ join ''; '' (map issueLine issues)] \<rparr>) \<and>
   (load format rawConfig = Inr (Some (JObject obj)) \<and>
    field obj ''services'' = Some (JArray xs) \<and> i < length xs \<and> xs ! i = JObject fs \<and>
    field fs ''type'' = None \<longrightarrow>
      (\<exists>s. parseConfigToIR load configSchema_safeParse sha256_hex rawConfig format =
             \<lparr> ir = None, errors = [s] \<rparr> \<and>
           sublist (''services.'' @ string_of_nat i @ ''.type'') s))"
proof (intro conjI impI)
  assume "load format rawConfig = Inr parsed \<and> safeParse parsed = Inl issues"
  then show "parseConfigToIR load safeParse sha256_hex rawConfig format =
      \<lparr> ir = None,
        errors = [''Schema validation failed: '' @ join ''; '' (map issueLine issues)] \<rparr>"
    by (simp add: parseConfigToIR_def)
next
  let ?e = "\<lparr> path = [Key ''services'', Index i, Key ''type''], message = ''Required'' \<rparr>"
  assume a: "load format rawConfig = Inr (Some (JObject obj)) \<and>
    field obj ''services'' = Some (JArray xs) \<and> i < length xs \<and> xs ! i = JObject fs \<and>
    field fs ''type'' = None"
  then obtain es where es: "configSchema_safeParse (Some (JObject obj)) = Inl es" "?e \<in> set es"
    using config_missing_type[of obj xs i fs] by blast
  let ?s = "''Schema validation failed: '' @ join ''; '' (map issueLine es)"
  have res: "parseConfigToIR load configSchema_safeParse sha256_hex rawConfig format =
      \<lparr> ir = None, errors = [?s] \<rparr>"
    using a es(1) by (simp add: parseConfigToIR_def)
  have "issueLine ?e \<in> set (map issueLine es)" using es(2) by simp
  then have "sublist (issueLine ?e) (join ''; '' (map issueLine es))" by (rule sublist_join)
  then obtain ps ss where "join ''; '' (map issueLine es) = ps @ issueLine ?e @ ss"
    unfolding sublist_def by blast
  then have "?s = (''Schema validation failed: '' @ ps) @
      (''services.'' @ string_of_nat i @ ''.type'') @ ('': Required'' @ ss)"
    by (simp add: issueLine_missing_type)
  then have "sublist (''services.'' @ string_of_nat i @ ''.type'') ?s"
    unfolding sublist_def by blast
  with res show "\<exists>s. parseConfigToIR load configSchema_safeParse sha256_hex rawConfig format =
      \<lparr> ir = None, errors = [s] \<rparr> \<and> sublist (''services.'' @ string_of_nat i @ ''.type'') s"
    by blast
qed

theorem schema_failure_one_error_witness:
  "parseConfigToIR (\<lambda>f r. Inr (Some scenario5_json)) configSchema_safeParse
     (\<lambda>r. sample_digest) ''services: [{name: api-gw, public: true}]'' Yaml =
     \<lparr> ir = None, errors = [''Schema validation failed: services.0.type: Required''] \<rparr> \<and>
   (\<exists>s. parseConfigToIR (\<lambda>f r. Inr (Some scenario5_json)) configSchema_safeParse
          (\<lambda>r. sample_digest) ''services: [{name: api-gw, public: true}]'' Yaml =
          \<lparr> ir = None, errors = [s] \<rparr> \<and>
        sublist (''services.'' @ string_of_nat 0 @ ''.type'') s)"
proof -
  let ?load = "\<lambda>(f::ParseFormat) (r::string). (Inr (Some scenario5_json) :: string + json option)"
  let ?raw = "''services: [{name: api-gw, public: true}]''"
  let ?fs = "[(''name'', JString ''api-gw''), (''public'', JBool True)]"
  let ?xs = "[JObject ?fs]"
  let ?obj = "[(''services'', JArray ?xs)]"
  let ?issues = "[\<lparr> path = [Key ''services'', Index 0, Key ''type''], message = ''Required'' \<rparr>]"
  have fails: "configSchema_safeParse (Some scenario5_json) = Inl ?issues"
    by code_simp
  have line: "''Schema validation failed: '' @ join ''; '' (map issueLine ?issues) =
      ''Schema validation failed: services.0.type: Required''"
    by code_simp
  have tree: "?load Yaml ?raw = Inr (Some (JObject ?obj))"
    by (simp add: scenario5_json_def)
  have shape: "field ?obj ''services'' = Some (JArray ?xs) \<and> 0 < length ?xs \<and>
      ?xs ! 0 = JObject ?fs \<and> field ?fs ''type'' = None"
    by (simp add: field_def)
  note r = schema_failure_one_error[of ?load Yaml ?raw "Some scenario5_json"
      configSchema_safeParse ?issues "\<lambda>r. sample_digest" ?obj ?xs 0 ?fs]
  from r fails line
  have "parseConfigToIR ?load configSchema_safeParse (\<lambda>r. sample_digest) ?raw Yaml =
     \<lparr> ir = None, errors = [''Schema validation failed: services.0.type: Required''] \<rparr>"
    by simp
  moreover from r tree shape
  have "\<exists>s. parseConfigToIR ?load configSchema_safeParse (\<lambda>r. sample_digest) ?raw Yaml =
          \<lparr> ir = None, errors = [s] \<rparr> \<and>
        sublist (''services.'' @ string_of_nat 0 @ ''.type'') s"
    by blast
  ultimately show ?thesis by blast
qed

text \<open>Claim C5. A parse succeeds exactly when the raw text deserializes and the tree
  passes the schema. On success the metadata carry the format and, as \<open>rawHash\<close>, the first
  12 characters of the hexadecimal SHA-256 digest of the raw text. The hash depends on the
  raw text only: two successful parses of the same text have the same \<open>rawHash\<close>, whatever
  the format and the tree.\<close>

theorem rawHash_of_raw_text:
  "(ir (parseConfigToIR load safeParse sha256_hex rawConfig format) \<noteq> None \<longleftrightarrow>
      (\<exists>parsed data. load format rawConfig = Inr parsed \<and> safeParse parsed = Inr data)) \<and>
   (ir (parseConfigToIR load safeParse sha256_hex rawConfig format) = Some cfg \<longrightarrow>
      metadata cfg =
        Some \<lparr> sourceFormat = format, rawHash = Some (take 12 (sha256_hex rawConfig)) \<rparr>) \<and>
   (ir (parseConfigToIR load safeParse sha256_hex rawConfig format) = Some cfg \<and>
    ir (parseConfigToIR load' safeParse' sha256_hex rawConfig format') = Some cfg' \<longrightarrow>
      map_option rawHash (metadata cfg) = map_option rawHash (metadata cfg')) \<and>
   (12 \<le> length (sha256_hex rawConfig) \<longrightarrow> length (take 12 (sha256_hex rawConfig)) = 12)"
proof -
  have meta: "metadata c =
      Some \<lparr> sourceFormat = f, rawHash = Some (take 12 (sha256_hex rawConfig)) \<rparr>"
    if "ir (parseConfigToIR l sp sha256_hex rawConfig f) = Some c" for l sp f c
    using that
    by (auto simp: parseConfigToIR_def Let_def split: sum.splits)
  have succ: "ir (parseConfigToIR load safeParse sha256_hex rawConfig format) \<noteq> None \<longleftrightarrow>
      (\<exists>parsed data. load format rawConfig = Inr parsed \<and> safeParse parsed = Inr data)"
    by (auto simp: parseConfigToIR_def Let_def split: sum.splits)
  have same: "map_option rawHash (metadata cfg) = map_option rawHash (metadata cfg')"
    if "ir (parseConfigToIR load safeParse sha256_hex rawConfig format) = Some cfg \<and>
        ir (parseConfigToIR load' safeParse' sha256_hex rawConfig format') = Some cfg'"
    using that meta[of load safeParse format cfg] meta[of load' safeParse' format' cfg']
    by simp
  from succ meta[of load safeParse format cfg] same show ?thesis by simp
qed

theorem rawHash_of_raw_text_witness:
  "ir (parseConfigToIR (\<lambda>f r. Inr (Some scenario1_json)) configSchema_safeParse
        (\<lambda>r. sample_digest) ''services: [...]'' Yaml) =
     Some \<lparr> services = [scenario1_service],
            metadata = Some \<lparr> sourceFormat = Yaml, rawHash = Some ''9a3ef3d9a2dd'' \<rparr> \<rparr> \<and>
   metadata \<lparr> services = [scenario1_service],
              metadata = Some \<lparr> sourceFormat = Yaml, rawHash = Some ''9a3ef3d9a2dd'' \<rparr> \<rparr> =
     Some \<lparr> sourceFormat = Yaml, rawHash = Some (take 12 sample_digest) \<rparr> \<and>
   length (take 12 sample_digest) = 12"
proof -
  let ?load = "\<lambda>(f::ParseFormat) (r::string). (Inr (Some scenario1_json) :: string + json option)"
  let ?cfg = "\<lparr> services = [scenario1_service],
      metadata = Some \<lparr> sourceFormat = Yaml, rawHash = Some ''9a3ef3d9a2dd'' \<rparr> \<rparr>"
  have ok: "ir (parseConfigToIR ?load configSchema_safeParse (\<lambda>r. sample_digest)
      ''services: [...]'' Yaml) = Some ?cfg"
    by code_simp
  have len: "12 \<le> length sample_digest" by code_simp
  note r = rawHash_of_raw_text[of ?load configSchema_safeParse "\<lambda>r. sample_digest"
      "''services: [...]''" Yaml ?cfg ?load configSchema_safeParse Yaml ?cfg]
  from r ok have "metadata ?cfg =
      Some \<lparr> sourceFormat = Yaml, rawHash = Some (take 12 sample_digest) \<rparr>"
    by blast
  moreover from r len have "length (take 12 sample_digest) = 12" by blast
  ultimately show ?thesis using ok by blast
qed

end
